theory Spec2Isabelle
  imports
    Complex_Main
    "HOL-Library.Multiset"
    "HOL-Library.Char_ord"
    "HOL-Library.List_Lexorder"
    "HOL-Library.Product_Lexorder"
    "HOL-Library.Word"
begin

section \<open>Data model\<close>

text \<open>
  The program \<^verbatim>\<open>eda_report_generator.py\<close> loads a CSV file into a pandas data frame
  and works on its columns by name. A cell of the frame is
  \<^item> \<open>NA\<close>: a missing value (\<open>NaN\<close>) of a float or text column;
  \<^item> \<open>I64 w\<close>: a value of an \<open>int64\<close> column, a 64-bit word read as a signed integer;
  \<^item> \<open>Num v\<close>: a finite value of a \<open>float64\<close> column, the real number it denotes
    (infinite floats are not modelled);
  \<^item> \<open>Bool b\<close>: a value of a boolean column;
  \<^item> \<open>Str s\<close>: a text;
  \<^item> \<open>Stamp t\<close>: a value of a \<open>datetime64\<close> column, \<open>Stamp None\<close> being \<open>NaT\<close>;
  \<^item> \<open>Cat l\<close>: a value of a categorical column, \<open>Cat None\<close> being its missing value.
  The type of a column can so be read off its cells, as \<^verbatim>\<open>read_csv\<close> infers it: a
  column of integers without a missing value is \<open>int64\<close>, a column of floats and missing
  values is \<open>float64\<close>, a column holding a text is \<open>object\<close>. A frame is the ordered list
  of its named columns; the row index is the position in the column (the \<open>RangeIndex\<close>
  that \<^verbatim>\<open>read_csv\<close> creates).

  Integer products wrap around as \<open>int64\<close> does. What the libraries compute on floats (a
  product, the conversion of an integer, a sum or a mean of a group) is a parameter of the
  model; only the quantiles of the outlier count are computed here, over the reals.
\<close>

datatype cell =
    NA
  | I64 "64 word"
  | Num real
  | Bool bool
  | Str string
  | Stamp "int option"
  | Cat "string option"

type_synonym column = "cell list"

type_synonym table = "(string \<times> column) list"

text \<open>A Python float that may be \<open>nan\<close>: \<open>None\<close> is \<open>nan\<close>.\<close>

type_synonym pyfloat = "real option"

datatype error = TypeError | KeyError | ValueError | IndexError | LibraryError

fun isna :: "cell \<Rightarrow> bool" where
  "isna NA = True"
| "isna (Stamp None) = True"
| "isna (Cat None) = True"
| "isna _ = False"

definition columns :: "table \<Rightarrow> string list" where
  "columns df = map fst df"

definition nrows :: "table \<Rightarrow> nat" where
  "nrows df = (case df of [] \<Rightarrow> 0 | (_, c) # _ \<Rightarrow> length c)"

text \<open>
  \<^verbatim>\<open>df[name] = values\<close>: the values are aligned to the frame's row index (missing
  positions become \<open>NaN\<close>, surplus ones are dropped); an existing column is replaced in
  place, a new one is appended as the last column.
\<close>

definition align :: "nat \<Rightarrow> column \<Rightarrow> column" where
  "align n c = take n c @ replicate (n - length c) NA"

fun replace_col :: "table \<Rightarrow> string \<Rightarrow> column \<Rightarrow> table" where
  "replace_col [] name c = []"
| "replace_col ((k, v) # df) name c =
     (if k = name then (k, c) # df else (k, v) # replace_col df name c)"

definition setitem :: "table \<Rightarrow> string \<Rightarrow> column \<Rightarrow> table" where
  "setitem df name c =
     (if name \<in> set (columns df) then replace_col df name (align (nrows df) c)
      else df @ [(name, align (nrows df) c)])"

section \<open>Age bands: \<^verbatim>\<open>pd.cut(df["Age"], bins=bins, labels=labels, right=True)\<close>\<close>

definition bins :: "real list" where
  "bins = [18, 25, 35, 45, 55, 200]"

definition labels :: "string list" where
  "labels = [''18-25'', ''26-35'', ''36-45'', ''46-55'', ''55+'']"

text \<open>
  With \<open>right=True\<close> and the default \<open>include_lowest=False\<close>, bin \<open>i\<close> is the
  half-open interval \<open>(edge i, edge (i+1)]\<close>; a value in no bin becomes the missing
  category. The result is a categorical column.
\<close>

fun cut_value :: "real list \<Rightarrow> string list \<Rightarrow> real \<Rightarrow> cell" where
  "cut_value (lo # hi # bs) (l # ls) v =
     (if lo < v \<and> v \<le> hi then Cat (Some l) else cut_value (hi # bs) ls v)"
| "cut_value _ _ v = Cat None"

text \<open>
  An integer is compared with the edges as the integer it is, a boolean as 0 or 1; a
  column of another type makes \<^verbatim>\<open>pd.cut\<close> raise.
\<close>

fun cut_cell :: "real list \<Rightarrow> string list \<Rightarrow> cell \<Rightarrow> error + cell" where
  "cut_cell bs ls NA = Inr (Cat None)"
| "cut_cell bs ls (I64 w) = Inr (cut_value bs ls (real_of_int (sint w)))"
| "cut_cell bs ls (Num v) = Inr (cut_value bs ls v)"
| "cut_cell bs ls (Bool b) = Inr (cut_value bs ls (if b then 1 else 0))"
| "cut_cell bs ls (Str s) = Inl TypeError"
| "cut_cell bs ls (Stamp t) = Inl TypeError"
| "cut_cell bs ls (Cat l) = Inl TypeError"

fun traverse :: "('a \<Rightarrow> error + 'b) \<Rightarrow> 'a list \<Rightarrow> error + 'b list" where
  "traverse f [] = Inr []"
| "traverse f (x # xs) =
     (case f x of
        Inl e \<Rightarrow> Inl e
      | Inr y \<Rightarrow> (case traverse f xs of Inl e \<Rightarrow> Inl e | Inr ys \<Rightarrow> Inr (y # ys)))"

definition pd_cut :: "column \<Rightarrow> real list \<Rightarrow> string list \<Rightarrow> error + column" where
  "pd_cut c bs ls = traverse (cut_cell bs ls) c"

definition age_group :: "real \<Rightarrow> cell" where
  "age_group v = cut_value bins labels v"

section \<open>Decision rule of the hypothesis report\<close>

text \<open>\<^verbatim>\<open>"Reject H0" if p < 0.05 else "Fail to reject H0"\<close>; a comparison with \<open>nan\<close> is false.\<close>

definition decision :: "pyfloat \<Rightarrow> string" where
  "decision p =
     (if (case p of None \<Rightarrow> False | Some v \<Rightarrow> v < 5 / 100) then ''Reject H0''
      else ''Fail to reject H0'')"

section \<open>Library functions\<close>

text \<open>
  The program calls pandas, numpy, scipy, statsmodels and matplotlib. What these compute on
  floating-point data is taken as a parameter: the parsing of dates, the \<open>float64\<close>
  product of two floats and the float nearest to an integer, the sum and the mean of the
  values of a group, the correlation coefficient, the chi-square statistic with its
  p-value and degrees of freedom, the least-squares fit, the rendering of a chart, the
  formatting of numbers and the text of the quality report. Each of those that can raise
  returns an error or a value.
\<close>

record lib =
  to_datetime :: "column \<Rightarrow> error + int option list"
  float_mul :: "real \<Rightarrow> real \<Rightarrow> real"
  float_of_int :: "int \<Rightarrow> real"
  series_sum :: "column \<Rightarrow> error + pyfloat"
  series_mean :: "column \<Rightarrow> error + pyfloat"
  chi2_contingency :: "nat list list \<Rightarrow> error + (pyfloat \<times> pyfloat \<times> nat)"
  ols_fit :: "real list \<Rightarrow> real list \<Rightarrow> error + (pyfloat \<times> pyfloat)"
  pearson :: "(real \<times> real) list \<Rightarrow> pyfloat"
  render_bar :: "(cell \<times> pyfloat) list \<Rightarrow> string \<Rightarrow> string \<Rightarrow> error + string"
  fmt_3f :: "pyfloat \<Rightarrow> string"
  fmt_4f :: "pyfloat \<Rightarrow> string"
  fmt_4g :: "pyfloat \<Rightarrow> string"
  fmt_int :: "nat \<Rightarrow> string"
  quality_text :: "table \<Rightarrow> (string \<times> nat) list \<Rightarrow> string"

section \<open>Enrichment (\<^verbatim>\<open>main\<close>, "Basic enrichments")\<close>

text \<open>
  \<^verbatim>\<open>df["Price"] * df["Quantity"]\<close>, cell by cell. Two integers give their product as
  a 64-bit word, which wraps around. A float and a number give the library's float
  product, an integer being converted to a float first. A boolean counts as 0 or 1, and
  two booleans give their conjunction. A text and an integer (or a boolean) give the text
  repeated that many times, none for a negative number; a text and a float, or two texts,
  raise \<open>TypeError\<close>, as do dates and categories. A missing factor gives a missing
  product.
\<close>

definition bool_word :: "bool \<Rightarrow> 64 word" where
  "bool_word b = (if b then 1 else 0)"

definition repeat :: "64 word \<Rightarrow> string \<Rightarrow> string" where
  "repeat n s = concat (replicate (nat (sint n)) s)"

fun cell_mul :: "lib \<Rightarrow> cell \<Rightarrow> cell \<Rightarrow> error + cell" where
  "cell_mul L (Stamp t) y = Inl TypeError"
| "cell_mul L x (Stamp t) = Inl TypeError"
| "cell_mul L (Cat l) y = Inl TypeError"
| "cell_mul L x (Cat l) = Inl TypeError"
| "cell_mul L NA y = Inr NA"
| "cell_mul L x NA = Inr NA"
| "cell_mul L (I64 a) (I64 b) = Inr (I64 (a * b))"
| "cell_mul L (I64 a) (Num b) = Inr (Num (float_mul L (float_of_int L (sint a)) b))"
| "cell_mul L (I64 a) (Bool b) = Inr (I64 (a * bool_word b))"
| "cell_mul L (I64 a) (Str s) = Inr (Str (repeat a s))"
| "cell_mul L (Num a) (I64 b) = Inr (Num (float_mul L a (float_of_int L (sint b))))"
| "cell_mul L (Num a) (Num b) = Inr (Num (float_mul L a b))"
| "cell_mul L (Num a) (Bool b) = Inr (Num (float_mul L a (if b then 1 else 0)))"
| "cell_mul L (Num a) (Str s) = Inl TypeError"
| "cell_mul L (Bool a) (I64 b) = Inr (I64 (bool_word a * b))"
| "cell_mul L (Bool a) (Num b) = Inr (Num (float_mul L (if a then 1 else 0) b))"
| "cell_mul L (Bool a) (Bool b) = Inr (Bool (a \<and> b))"
| "cell_mul L (Bool a) (Str s) = Inr (Str (repeat (bool_word a) s))"
| "cell_mul L (Str s) (I64 b) = Inr (Str (repeat b s))"
| "cell_mul L (Str s) (Num b) = Inl TypeError"
| "cell_mul L (Str s) (Bool b) = Inr (Str (repeat (bool_word b) s))"
| "cell_mul L (Str s) (Str t) = Inl TypeError"

definition col_mul :: "lib \<Rightarrow> column \<Rightarrow> column \<Rightarrow> error + column" where
  "col_mul L a b = traverse (\<lambda>(x, y). cell_mul L x y) (zip a b)"

definition enrich_date :: "lib \<Rightarrow> table \<Rightarrow> table" where
  "enrich_date L df =
     (case map_of df ''OrderDate'' of
        None \<Rightarrow> df
      | Some c \<Rightarrow>
          (case to_datetime L c of
             Inl e \<Rightarrow> df
           | Inr d \<Rightarrow> setitem df ''OrderDate'' (map Stamp d)))"

definition enrich_age :: "table \<Rightarrow> table" where
  "enrich_age df =
     (case map_of df ''Age'' of
        None \<Rightarrow> df
      | Some c \<Rightarrow>
          (case pd_cut c bins labels of
             Inl e \<Rightarrow> df
           | Inr g \<Rightarrow> setitem df ''AgeGroup'' g))"

definition enrich_revenue :: "lib \<Rightarrow> table \<Rightarrow> error + table" where
  "enrich_revenue L df =
     (case (map_of df ''Price'', map_of df ''Quantity'', map_of df ''Revenue'') of
        (Some p, Some q, None) \<Rightarrow>
          (case col_mul L p q of
             Inl e \<Rightarrow> Inl e
           | Inr r \<Rightarrow> Inr (setitem df ''Revenue'' r))
      | _ \<Rightarrow> Inr df)"

definition enrich :: "lib \<Rightarrow> table \<Rightarrow> error + table" where
  "enrich L df = enrich_revenue L (enrich_age (enrich_date L df))"

section \<open>Outlier count: \<^verbatim>\<open>iqr_outliers_count\<close>\<close>

text \<open>
  \<^verbatim>\<open>s.quantile(q)\<close> interpolates linearly between the two order statistics around
  position \<open>(n - 1) * q\<close>; the quantile of an empty series is \<open>nan\<close>.
\<close>

definition quantile :: "real list \<Rightarrow> real \<Rightarrow> pyfloat" where
  "quantile s q =
     (if s = [] then None
      else
        (let v = sort s;
             pos = real (length s - 1) * q;
             lo = nat \<lfloor>pos\<rfloor>;
             hi = nat \<lceil>pos\<rceil>
         in Some (v ! lo + (v ! hi - v ! lo) * (pos - real lo))))"

definition lower_bound :: "real \<Rightarrow> real \<Rightarrow> real" where
  "lower_bound q1 q3 = q1 - 15 / 10 * (q3 - q1)"

definition upper_bound :: "real \<Rightarrow> real \<Rightarrow> real" where
  "upper_bound q1 q3 = q3 + 15 / 10 * (q3 - q1)"

definition iqr_outliers_count :: "real list \<Rightarrow> nat" where
  "iqr_outliers_count s =
     (case (quantile s (25 / 100), quantile s (75 / 100)) of
        (Some q1, Some q3) \<Rightarrow>
          length (filter (\<lambda>x. x < lower_bound q1 q3 \<or> x > upper_bound q1 q3) s)
      | _ \<Rightarrow> 0)"

text \<open>
  \<^verbatim>\<open>df.select_dtypes(include=[np.number])\<close> keeps the \<open>int64\<close> and \<open>float64\<close> columns:
  those whose cells are integers, floats and missing values. Boolean, text, date and
  categorical columns are not numeric, whatever is missing in them, and neither is a
  column without rows, which \<^verbatim>\<open>read_csv\<close> types as \<open>object\<close>.
\<close>

fun is_number :: "cell \<Rightarrow> bool" where
  "is_number NA = True"
| "is_number (I64 w) = True"
| "is_number (Num v) = True"
| "is_number _ = False"

definition is_numeric :: "column \<Rightarrow> bool" where
  "is_numeric c = (c \<noteq> [] \<and> list_all is_number c)"

text \<open>\<^verbatim>\<open>df[c].dropna()\<close> of a numeric column, as the floats the quantiles are computed on.\<close>

fun numbers :: "lib \<Rightarrow> column \<Rightarrow> real list" where
  "numbers L [] = []"
| "numbers L (I64 w # c) = float_of_int L (sint w) # numbers L c"
| "numbers L (Num v # c) = v # numbers L c"
| "numbers L (_ # c) = numbers L c"

definition numeric_cols :: "table \<Rightarrow> string list" where
  "numeric_cols df = map fst (filter (\<lambda>(n, c). is_numeric c) df)"

definition outlier_counts :: "lib \<Rightarrow> table \<Rightarrow> (string \<times> nat) list" where
  "outlier_counts L df =
     map (\<lambda>(n, c). (n, iqr_outliers_count (numbers L c)))
       (filter (\<lambda>(n, c). is_numeric c) df)"

section \<open>Contingency tables: \<^verbatim>\<open>chi_square_test\<close>\<close>

text \<open>
  \<^verbatim>\<open>pd.crosstab(a, b)\<close>: one row per value of \<open>a\<close>, one column per value of \<open>b\<close>, in
  sorted order, over the rows where both are present; each cell counts the rows with that
  pair of values. Numbers sort by their value, \<open>False\<close> before \<open>True\<close>, texts by their
  characters, and the age bands in the order of their labels, which is the order of their
  characters too.
\<close>

fun cell_key :: "cell \<Rightarrow> nat \<times> real \<times> string" where
  "cell_key (I64 w) = (0, real_of_int (sint w), [])"
| "cell_key (Num v) = (0, v, [])"
| "cell_key (Bool b) = (0, (if b then 1 else 0), [])"
| "cell_key (Str s) = (1, 0, s)"
| "cell_key (Cat (Some l)) = (1, 0, l)"
| "cell_key (Stamp (Some t)) = (2, real_of_int t, [])"
| "cell_key _ = (3, 0, [])"

record ctab =
  row_labels :: "cell list"
  col_labels :: "cell list"
  counts :: "nat list list"

definition present_pairs :: "column \<Rightarrow> column \<Rightarrow> (cell \<times> cell) list" where
  "present_pairs a b = filter (\<lambda>(x, y). \<not> isna x \<and> \<not> isna y) (zip a b)"

definition crosstab :: "column \<Rightarrow> column \<Rightarrow> ctab" where
  "crosstab a b =
     (let ps = present_pairs a b;
          rs = sort_key cell_key (remdups (map fst ps));
          cs = sort_key cell_key (remdups (map snd ps))
      in \<lparr>row_labels = rs, col_labels = cs,
          counts = map (\<lambda>r. map (\<lambda>c. count_list ps (r, c)) cs) rs\<rparr>)"

text \<open>\<^verbatim>\<open>(tab < min_count).any().any()\<close>\<close>

definition any_below :: "ctab \<Rightarrow> nat \<Rightarrow> bool" where
  "any_below tab m = list_ex (\<lambda>r. list_ex (\<lambda>x. x < m) r) (counts tab)"

text \<open>\<^verbatim>\<open>tab.sum(axis=1)\<close> and \<^verbatim>\<open>tab.sum(axis=0)\<close>\<close>

definition row_sums :: "ctab \<Rightarrow> nat list" where
  "row_sums tab = map sum_list (counts tab)"

definition col_sums :: "ctab \<Rightarrow> nat list" where
  "col_sums tab =
     map (\<lambda>j. sum_list (map (\<lambda>r. r ! j) (counts tab))) [0..<length (col_labels tab)]"

text \<open>Selection by a boolean mask, as \<^verbatim>\<open>.loc\<close> does with boolean series.\<close>

definition select :: "bool list \<Rightarrow> 'a list \<Rightarrow> 'a list" where
  "select keep xs = map snd (filter fst (zip keep xs))"

text \<open>
  \<^verbatim>\<open>tab.loc[tab.sum(axis=1) >= min_count, tab.sum(axis=0) >= min_count]\<close>: both masks
  are computed on the table before any row or column is removed.
\<close>

definition prune :: "ctab \<Rightarrow> nat \<Rightarrow> ctab" where
  "prune tab m =
     (let rm = map (\<lambda>s. m \<le> s) (row_sums tab);
          cm = map (\<lambda>s. m \<le> s) (col_sums tab)
      in \<lparr>row_labels = select rm (row_labels tab),
          col_labels = select cm (col_labels tab),
          counts = map (select cm) (select rm (counts tab))\<rparr>)"

definition min_count :: nat where
  "min_count = 5"

text \<open>The table handed to \<^verbatim>\<open>stats.chi2_contingency\<close>.\<close>

definition tested_table :: "ctab \<Rightarrow> nat \<Rightarrow> ctab" where
  "tested_table tab m = (if any_below tab m then prune tab m else tab)"

definition chi_square_test ::
  "lib \<Rightarrow> table \<Rightarrow> string \<Rightarrow> string \<Rightarrow> nat \<Rightarrow> error + (pyfloat \<times> pyfloat \<times> nat \<times> ctab)" where
  "chi_square_test L df col_a col_b m =
     (case map_of df col_a of
        None \<Rightarrow> Inl KeyError
      | Some a \<Rightarrow>
          (case map_of df col_b of
             None \<Rightarrow> Inl KeyError
           | Some b \<Rightarrow>
               (let tab = tested_table (crosstab a b) m
                in case chi2_contingency L (counts tab) of
                     Inl e \<Rightarrow> Inl e
                   | Inr (chi2, p, dof) \<Rightarrow> Inr (chi2, p, dof, tab))))"

section \<open>Frames, series and groups\<close>

definition and_then :: "error + 'a \<Rightarrow> ('a \<Rightarrow> error + 'b) \<Rightarrow> error + 'b" where
  "and_then m f = (case m of Inl e \<Rightarrow> Inl e | Inr x \<Rightarrow> f x)"

text \<open>\<^verbatim>\<open>df[name]\<close> raises \<open>KeyError\<close> when the frame has no such column.\<close>

definition getitem :: "table \<Rightarrow> string \<Rightarrow> error + column" where
  "getitem df name = (case map_of df name of None \<Rightarrow> Inl KeyError | Some c \<Rightarrow> Inr c)"

text \<open>\<^verbatim>\<open>{...}.issubset(df.columns)\<close>\<close>

definition has_cols :: "table \<Rightarrow> string list \<Rightarrow> bool" where
  "has_cols df names = list_all (\<lambda>n. n \<in> set (columns df)) names"

text \<open>\<^verbatim>\<open>df[keep]\<close> with a boolean series keeps the rows marked true, in every column.\<close>

definition filter_rows :: "bool list \<Rightarrow> table \<Rightarrow> table" where
  "filter_rows keep df = map (\<lambda>(n, c). (n, select keep c)) df"

definition notna :: "column \<Rightarrow> bool list" where
  "notna c = map (\<lambda>x. \<not> isna x) c"

text \<open>\<^verbatim>\<open>df.dropna(subset=names)\<close>\<close>

fun dropna_mask :: "table \<Rightarrow> string list \<Rightarrow> error + bool list" where
  "dropna_mask df [] = Inr (replicate (nrows df) True)"
| "dropna_mask df (n # ns) =
     and_then (getitem df n) (\<lambda>c.
     and_then (dropna_mask df ns) (\<lambda>keep.
       Inr (map (\<lambda>(x, k). x \<and> k) (zip (notna c) keep))))"

definition dropna_subset :: "table \<Rightarrow> string list \<Rightarrow> error + table" where
  "dropna_subset df names = and_then (dropna_mask df names) (\<lambda>keep. Inr (filter_rows keep df))"

type_synonym series = "(cell \<times> pyfloat) list"

text \<open>
  \<^verbatim>\<open>df.groupby(key)[value].agg()\<close>: one entry per present key, in sorted order, holding
  the library's sum or mean of the values of the rows with that key. A frame without a
  present key gives the empty series.
\<close>

definition group_keys :: "column \<Rightarrow> cell list" where
  "group_keys k = sort_key cell_key (remdups (filter (\<lambda>x. \<not> isna x) k))"

definition groupby_agg ::
  "(column \<Rightarrow> error + pyfloat) \<Rightarrow> column \<Rightarrow> column \<Rightarrow> error + series" where
  "groupby_agg agg k v =
     traverse
       (\<lambda>g. case agg (map snd (filter (\<lambda>(x, y). x = g) (zip k v))) of
               Inl e \<Rightarrow> Inl e
             | Inr s \<Rightarrow> Inr (g, s))
       (group_keys k)"

text \<open>\<^verbatim>\<open>series * 100\<close>\<close>

definition times100 :: "lib \<Rightarrow> series \<Rightarrow> series" where
  "times100 L s = map (\<lambda>(g, x). (g, map_option (\<lambda>v. float_mul L v 100) x)) s"

text \<open>\<^verbatim>\<open>sort_values(ascending=False)\<close>: largest first, \<open>nan\<close> last.\<close>

fun desc_key :: "pyfloat \<Rightarrow> nat \<times> real" where
  "desc_key (Some v) = (0, - v)"
| "desc_key None = (1, 0)"

definition sort_values_desc :: "series \<Rightarrow> series" where
  "sort_values_desc s = sort_key (\<lambda>(g, x). desc_key x) s"

text \<open>
  \<^verbatim>\<open>s.value_counts()\<close>: the present values with their number of occurrences, most
  frequent first.
\<close>

definition value_counts :: "column \<Rightarrow> (cell \<times> nat) list" where
  "value_counts c =
     (let vs = filter (\<lambda>x. \<not> isna x) c
      in sort_key (\<lambda>(v, n). - int n) (map (\<lambda>v. (v, count_list vs v)) (rev (remdups (rev vs)))))"

section \<open>Output of a run\<close>

text \<open>
  Files are named by their path below the base directory. A run carries the files written
  so far, the list \<^verbatim>\<open>results\<close> and the two lines \<^verbatim>\<open>corr_line\<close> and \<^verbatim>\<open>reg_line\<close>.
\<close>

record run =
  files :: "string \<rightharpoonup> string"
  results :: "(string \<times> pyfloat \<times> pyfloat \<times> nat) list"
  corr_line :: string
  reg_line :: string

text \<open>
  \<^verbatim>\<open>save_bar(series, title, ylabel, path)\<close>: the bar plot of a series without entries
  raises (\<open>IndexError\<close>) before anything is saved.
\<close>

definition save_bar ::
  "lib \<Rightarrow> series \<Rightarrow> string \<Rightarrow> string \<Rightarrow> string \<Rightarrow> run \<Rightarrow> error + run" where
  "save_bar L s title ylabel path st =
     (if sort_values_desc s = [] then Inl IndexError
      else
        and_then (render_bar L (sort_values_desc s) title ylabel) (\<lambda>png.
          Inr (st\<lparr>files := (files st)(path \<mapsto> png)\<rparr>)))"

section \<open>The gated analyses of \<^verbatim>\<open>main\<close>\<close>

datatype analysis =
    RevenueByCategory
  | ReturnRateByCategory
  | ReturnRateByBrand
  | ReturnRateByDevice
  | Correlation
  | DeviceReturned
  | RegionDeliveryStatus
  | AgeGroupReturned
  | TopBrandsReturned
  | Regression

text \<open>The source order of the analyses.\<close>

definition analyses :: "analysis list" where
  "analyses =
     [RevenueByCategory, ReturnRateByCategory, ReturnRateByBrand, ReturnRateByDevice,
      Correlation, DeviceReturned, RegionDeliveryStatus, AgeGroupReturned,
      TopBrandsReturned, Regression]"

text \<open>
  The columns an analysis is guarded by. A return-rate chart sits under
  \<^verbatim>\<open>if "Returned" in df.columns\<close> and its own \<^verbatim>\<open>if\<close> on the grouping column.
\<close>

fun required :: "analysis \<Rightarrow> string list" where
  "required RevenueByCategory = [''Revenue'', ''Category'']"
| "required ReturnRateByCategory = [''Returned'', ''Category'']"
| "required ReturnRateByBrand = [''Returned'', ''Brand'']"
| "required ReturnRateByDevice = [''Returned'', ''Device'']"
| "required Correlation = [''DiscountPercent'', ''Quantity'']"
| "required DeviceReturned = [''Device'', ''Returned'']"
| "required RegionDeliveryStatus = [''Region'', ''DeliveryStatus'']"
| "required AgeGroupReturned = [''AgeGroup'', ''Returned'']"
| "required TopBrandsReturned = [''Brand'', ''Returned'']"
| "required Regression = [''DiscountPercent'', ''Quantity'']"

definition return_rate :: "lib \<Rightarrow> table \<Rightarrow> string \<Rightarrow> error + series" where
  "return_rate L df key =
     and_then (getitem df key) (\<lambda>k.
     and_then (getitem df ''Returned'') (\<lambda>v.
     and_then (groupby_agg (series_mean L) k v) (\<lambda>rr. Inr (times100 L rr))))"

definition chi_square_result ::
  "lib \<Rightarrow> table \<Rightarrow> string \<Rightarrow> string \<Rightarrow> string \<Rightarrow> run \<Rightarrow> error + run" where
  "chi_square_result L df col_a col_b name st =
     and_then (dropna_subset df [col_a, col_b]) (\<lambda>d.
     and_then (chi_square_test L d col_a col_b min_count) (\<lambda>(chi2, p, dof, tab).
       Inr (st\<lparr>results := results st @ [(name, chi2, p, dof)]\<rparr>)))"

text \<open>
  A column as floats, for the correlation: a text, a date or a category makes it raise.
\<close>

fun to_float :: "lib \<Rightarrow> cell \<Rightarrow> error + pyfloat" where
  "to_float L NA = Inr None"
| "to_float L (I64 w) = Inr (Some (float_of_int L (sint w)))"
| "to_float L (Num v) = Inr (Some v)"
| "to_float L (Bool b) = Inr (Some (if b then 1 else 0))"
| "to_float L (Str s) = Inl TypeError"
| "to_float L (Stamp t) = Inl TypeError"
| "to_float L (Cat l) = Inl TypeError"

text \<open>\<^verbatim>\<open>.astype(float)\<close>\<close>

fun astype_float :: "lib \<Rightarrow> cell \<Rightarrow> error + pyfloat" where
  "astype_float L NA = Inr None"
| "astype_float L (I64 w) = Inr (Some (float_of_int L (sint w)))"
| "astype_float L (Num v) = Inr (Some v)"
| "astype_float L (Bool b) = Inr (Some (if b then 1 else 0))"
| "astype_float L (Str s) = Inl ValueError"
| "astype_float L (Stamp t) = Inl TypeError"
| "astype_float L (Cat l) = Inl ValueError"

text \<open>
  \<^verbatim>\<open>s.dropna()\<close> on a float series keeps the present values with their row labels;
  \<^verbatim>\<open>s.loc[labels]\<close> raises \<open>KeyError\<close> when a label is not in the series.
\<close>

definition dropna_series :: "pyfloat list \<Rightarrow> (nat \<times> real) list" where
  "dropna_series s =
     List.map_filter (\<lambda>(i, x). map_option (\<lambda>v. (i, v)) x) (zip [0..<length s] s)"

definition loc :: "(nat \<times> real) list \<Rightarrow> nat list \<Rightarrow> error + (nat \<times> real) list" where
  "loc s idx =
     traverse (\<lambda>i. case map_of s i of None \<Rightarrow> Inl KeyError | Some v \<Rightarrow> Inr (i, v)) idx"

fun body :: "lib \<Rightarrow> table \<Rightarrow> analysis \<Rightarrow> run \<Rightarrow> error + run" where
  "body L df RevenueByCategory st =
     and_then (getitem df ''Category'') (\<lambda>k.
     and_then (getitem df ''Revenue'') (\<lambda>v.
     and_then (groupby_agg (series_sum L) k v) (\<lambda>rev_cat.
       save_bar L (sort_values_desc rev_cat) ''Revenue by Category'' ''Revenue''
         ''visuals/plots/revenue_by_category.png'' st)))"
| "body L df ReturnRateByCategory st =
     and_then (return_rate L df ''Category'') (\<lambda>rr_cat.
       save_bar L rr_cat ''Return Rate by Category'' ''Return Rate (%)''
         ''visuals/plots/return_rate_by_category.png'' st)"
| "body L df ReturnRateByBrand st =
     and_then (return_rate L df ''Brand'') (\<lambda>rr_brand.
       save_bar L (take 20 (sort_values_desc rr_brand)) ''Return Rate by Brand (Top 20)''
         ''Return Rate (%)'' ''visuals/plots/return_rate_by_brand.png'' st)"
| "body L df ReturnRateByDevice st =
     and_then (return_rate L df ''Device'') (\<lambda>rr_device.
       save_bar L rr_device ''Return Rate by Device'' ''Return Rate (%)''
         ''visuals/plots/return_rate_by_device.png'' st)"
| "body L df Correlation st =
     and_then (getitem df ''DiscountPercent'') (\<lambda>dc.
     and_then (getitem df ''Quantity'') (\<lambda>qc.
     and_then (traverse (to_float L) dc) (\<lambda>x.
     and_then (traverse (to_float L) qc) (\<lambda>y.
       Inr (st\<lparr>corr_line := ''Correlation(DiscountPercent, Quantity) = '' @
              fmt_3f L (pearson L (List.map_filter
                (\<lambda>(a, b). case (a, b) of (Some u, Some w) \<Rightarrow> Some (u, w) | _ \<Rightarrow> None)
                (zip x y)))\<rparr>)))))"
| "body L df DeviceReturned st =
     chi_square_result L df ''Device'' ''Returned'' ''Device vs Returned (Chi-square)'' st"
| "body L df RegionDeliveryStatus st =
     chi_square_result L df ''Region'' ''DeliveryStatus''
       ''Region vs DeliveryStatus (Chi-square)'' st"
| "body L df AgeGroupReturned st =
     chi_square_result L df ''AgeGroup'' ''Returned'' ''AgeGroup vs Returned (Chi-square)'' st"
| "body L df TopBrandsReturned st =
     and_then (getitem df ''Brand'') (\<lambda>brand.
       (let top_brands = take 15 (map fst (value_counts brand));
            sub = filter_rows (map (\<lambda>x. x \<in> set top_brands) brand) df
        in if nrows sub > 0
           then chi_square_result L sub ''Brand'' ''Returned''
                  ''Top Brands vs Returned (Chi-square)'' st
           else Inr st))"
| "body L df Regression st =
     and_then (getitem df ''DiscountPercent'') (\<lambda>dc.
     and_then (traverse (astype_float L) dc) (\<lambda>x.
     and_then (getitem df ''Quantity'') (\<lambda>qc.
     and_then (traverse (astype_float L) qc) (\<lambda>y.
     and_then (loc (dropna_series x) (map fst (dropna_series y))) (\<lambda>xs.
     and_then (ols_fit L (map snd (dropna_series y)) (map snd xs)) (\<lambda>(coef, p).
       Inr (st\<lparr>reg_line := ''Quantity ~ DiscountPercent: coef='' @ fmt_4f L coef @
              '', p='' @ fmt_4g L p\<rparr>)))))))"

text \<open>An analysis runs only when the frame has all its columns.\<close>

definition step :: "lib \<Rightarrow> table \<Rightarrow> analysis \<Rightarrow> run \<Rightarrow> error + run" where
  "step L df a st = (if has_cols df (required a) then body L df a st else Inr st)"

fun run_all :: "lib \<Rightarrow> table \<Rightarrow> analysis list \<Rightarrow> run \<Rightarrow> error + run" where
  "run_all L df [] st = Inr st"
| "run_all L df (a # as) st = and_then (step L df a st) (run_all L df as)"

section \<open>The hypothesis report\<close>

text \<open>The report is written as UTF-8: a text is the list of its bytes.\<close>

definition test_tube :: string where
  "test_tube = [CHR 0xF0, CHR 0x9F, CHR 0xA7, CHR 0xAA]"

definition arrow :: string where
  "arrow = [CHR 0xE2, CHR 0x86, CHR 0x92]"

definition header :: string where
  "header = ''# '' @ test_tube @ '' Hypothesis Testing (Auto)''"

definition placeholder :: string where
  "placeholder =
     ''# '' @ test_tube @ '' Hypothesis Testing'' @ [CHR 0x0A] @ ''(No eligible columns found.)''"

definition result_line :: "lib \<Rightarrow> string \<times> pyfloat \<times> pyfloat \<times> nat \<Rightarrow> string" where
  "result_line L r =
     (case r of (name, chi2, p, dof) \<Rightarrow>
        ''- **'' @ name @ ''** '' @ arrow @ '' chi2='' @ fmt_3f L chi2 @ '', dof='' @
        fmt_int L dof @ '', p='' @ fmt_4g L p @ '' '' @ arrow @ '' **'' @ decision p @ ''**'')"

definition hyp_lines :: "lib \<Rightarrow> run \<Rightarrow> string list" where
  "hyp_lines L st =
     [header] @
     (if results st \<noteq> [] then map (result_line L) (results st) else []) @
     (if corr_line st \<noteq> [] then [''- '' @ corr_line st] else []) @
     (if reg_line st \<noteq> [] then [''- '' @ reg_line st] else [])"

text \<open>\<^verbatim>\<open>"\n".join(lines)\<close>\<close>

fun join_lines :: "string list \<Rightarrow> string" where
  "join_lines [] = []"
| "join_lines [l] = l"
| "join_lines (l # ls) = l @ [CHR 0x0A] @ join_lines ls"

definition hypothesis_report :: "lib \<Rightarrow> run \<Rightarrow> string" where
  "hypothesis_report L st =
     (if hyp_lines L st \<noteq> [] then join_lines (hyp_lines L st) else placeholder)"

section \<open>\<^verbatim>\<open>main\<close>\<close>

text \<open>
  From the frame that \<^verbatim>\<open>pd.read_csv\<close> returned and the files below the base directory to
  the files after the run. The static insight template is the same text in every run and is
  not spelled out here.
\<close>

definition main :: "lib \<Rightarrow> string \<Rightarrow> table \<Rightarrow> (string \<rightharpoonup> string) \<Rightarrow> error + (string \<rightharpoonup> string)" where
  "main L insight df0 fs =
     and_then (enrich L df0) (\<lambda>df.
     and_then (run_all L df analyses
        \<lparr>files = fs(''reports/data_quality_report.md'' \<mapsto> quality_text L df (outlier_counts L df)),
         results = [], corr_line = [], reg_line = []\<rparr>) (\<lambda>st.
       Inr ((files st)(''reports/hypothesis_testing.md'' \<mapsto> hypothesis_report L st,
                       ''reports/insight_summary.md'' \<mapsto> insight))))"

text \<open>
  Two libraries for evaluating concrete runs: one in which every call that can fail does,
  and one whose chi-square computation returns a given p-value.
\<close>

definition no_lib :: lib where
  "no_lib =
     \<lparr>to_datetime = (\<lambda>c. Inl LibraryError),
      float_mul = (\<lambda>a b. a * b),
      float_of_int = real_of_int,
      series_sum = (\<lambda>c. Inl LibraryError),
      series_mean = (\<lambda>c. Inl LibraryError),
      chi2_contingency = (\<lambda>t. Inl LibraryError),
      ols_fit = (\<lambda>y x. Inl LibraryError),
      pearson = (\<lambda>ps. None),
      render_bar = (\<lambda>s t y. Inl LibraryError),
      fmt_3f = (\<lambda>x. []),
      fmt_4f = (\<lambda>x. []),
      fmt_4g = (\<lambda>x. []),
      fmt_int = (\<lambda>n. []),
      quality_text = (\<lambda>df oc. [])\<rparr>"


section \<open>Basic facts about frames\<close>

lemma traverse_map:
  "(\<And>x. x \<in> set xs \<Longrightarrow> f x = Inr (g x)) \<Longrightarrow> traverse f xs = Inr (map g xs)"
  by (induction xs) simp_all

lemma map_of_replace_col:
  "name \<in> set (map fst df) \<Longrightarrow> map_of (replace_col df name c) name = Some c"
  by (induction df) (force simp: image_iff)+

lemma map_of_replace_col_other:
  "k \<noteq> name \<Longrightarrow> map_of (replace_col df name c) k = map_of df k"
  by (induction df) auto

lemma map_of_setitem_same: "map_of (setitem df name c) name = Some (align (nrows df) c)"
proof (cases "name \<in> set (columns df)")
  case True
  then show ?thesis by (simp add: setitem_def columns_def map_of_replace_col)
next
  case False
  then have "map_of df name = None" by (simp add: columns_def map_of_eq_None_iff)
  with False show ?thesis by (simp add: setitem_def map_add_def)
qed

lemma map_of_setitem_other: "k \<noteq> name \<Longrightarrow> map_of (setitem df name c) k = map_of df k"
  by (auto simp: setitem_def map_of_replace_col_other map_add_def split: option.splits)

lemma align_same_length: "length c = n \<Longrightarrow> align n c = c"
  by (simp add: align_def)

lemma length_align: "length (align n c) = n"
  by (simp add: align_def)

section \<open>Age bands\<close>

lemma age_group_cases:
  "age_group v =
     (if 18 < v \<and> v \<le> 25 then Cat (Some ''18-25'')
      else if 25 < v \<and> v \<le> 35 then Cat (Some ''26-35'')
      else if 35 < v \<and> v \<le> 45 then Cat (Some ''36-45'')
      else if 45 < v \<and> v \<le> 55 then Cat (Some ''46-55'')
      else if 55 < v \<and> v \<le> 200 then Cat (Some ''55+'')
      else Cat None)"
  by (simp add: age_group_def bins_def labels_def)

lemma pd_cut_numeric:
  "is_numeric c \<Longrightarrow>
   pd_cut c bins labels =
     Inr (map (\<lambda>x. case x of
                      I64 w \<Rightarrow> age_group (real_of_int (sint w))
                    | Num v \<Rightarrow> age_group v
                    | _ \<Rightarrow> Cat None) c)"
  unfolding pd_cut_def
proof (rule traverse_map)
  fix x assume "is_numeric c" "x \<in> set c"
  then have "is_number x" by (simp add: is_numeric_def list_all_iff)
  then show "cut_cell bins labels x =
      Inr (case x of
             I64 w \<Rightarrow> age_group (real_of_int (sint w))
           | Num v \<Rightarrow> age_group v
           | _ \<Rightarrow> Cat None)"
    by (cases x) (simp_all add: age_group_def)
qed

text \<open>
  C3 (as amended). For a frame with a numeric \<open>Age\<close> column, the enrichment sets the
  \<open>AgeGroup\<close> column, with one entry per row, and in each row an age in \<open>(18,25]\<close> gives
  \<open>18-25\<close>, an age in \<open>(25,35]\<close> gives \<open>26-35\<close>, an age in \<open>(35,45]\<close> gives \<open>36-45\<close>, an
  age in \<open>(45,55]\<close> gives \<open>46-55\<close>, an age in \<open>(55,200]\<close> gives \<open>55+\<close>, and an age below
  18 or above 200 gives a missing value. The age is a float or an integer. Nothing is said
  here about the age 18 itself.
\<close>

theorem age_group_bands:
  assumes "map_of df ''Age'' = Some c" and "is_numeric c" and "length c = nrows df"
    and "i < length c" and "c ! i = Num v \<or> c ! i = I64 w \<and> v = real_of_int (sint w)"
  shows "\<exists>g. map_of (enrich_age df) ''AgeGroup'' = Some g \<and> length g = nrows df \<and>
      (18 < v \<and> v \<le> 25 \<longrightarrow> g ! i = Cat (Some ''18-25'')) \<and>
      (25 < v \<and> v \<le> 35 \<longrightarrow> g ! i = Cat (Some ''26-35'')) \<and>
      (35 < v \<and> v \<le> 45 \<longrightarrow> g ! i = Cat (Some ''36-45'')) \<and>
      (45 < v \<and> v \<le> 55 \<longrightarrow> g ! i = Cat (Some ''46-55'')) \<and>
      (55 < v \<and> v \<le> 200 \<longrightarrow> g ! i = Cat (Some ''55+'')) \<and>
      (v < 18 \<or> 200 < v \<longrightarrow> g ! i = Cat None)"
proof -
  let ?g = "map (\<lambda>x. case x of
                       I64 w \<Rightarrow> age_group (real_of_int (sint w))
                     | Num v \<Rightarrow> age_group v
                     | _ \<Rightarrow> Cat None) c"
  have cut: "pd_cut c bins labels = Inr ?g"
    using assms(2) by (rule pd_cut_numeric)
  have al: "align (nrows df) ?g = ?g"
    using assms(3) by (simp add: align_same_length)
  have "enrich_age df = setitem df ''AgeGroup'' ?g"
    by (simp only: enrich_age_def assms(1) cut option.case sum.case)
  then have g: "map_of (enrich_age df) ''AgeGroup'' = Some ?g"
    using al by (simp only: map_of_setitem_same)
  have nth: "?g ! i = age_group v"
    using assms(4,5) by auto
  have len: "length ?g = nrows df"
    using assms(3) by simp
  show ?thesis
  proof (intro exI conjI)
    show "map_of (enrich_age df) ''AgeGroup'' = Some ?g" by (rule g)
    show "length ?g = nrows df" by (rule len)
    show "18 < v \<and> v \<le> 25 \<longrightarrow> ?g ! i = Cat (Some ''18-25'')"
      unfolding nth by (simp add: age_group_cases)
    show "25 < v \<and> v \<le> 35 \<longrightarrow> ?g ! i = Cat (Some ''26-35'')"
      unfolding nth by (simp add: age_group_cases)
    show "35 < v \<and> v \<le> 45 \<longrightarrow> ?g ! i = Cat (Some ''36-45'')"
      unfolding nth by (simp add: age_group_cases)
    show "45 < v \<and> v \<le> 55 \<longrightarrow> ?g ! i = Cat (Some ''46-55'')"
      unfolding nth by (simp add: age_group_cases)
    show "55 < v \<and> v \<le> 200 \<longrightarrow> ?g ! i = Cat (Some ''55+'')"
      unfolding nth by (simp add: age_group_cases)
    show "v < 18 \<or> 200 < v \<longrightarrow> ?g ! i = Cat None"
      unfolding nth by (auto simp: age_group_cases)
  qed
qed

text \<open>The ages 24, 25, 26 and 60 of the specification, as the rows of one frame.\<close>

theorem age_group_bands_witness:
  "map_of [(''Age'', [I64 24, I64 25, I64 26, I64 60])] ''Age'' =
     Some [I64 24, I64 25, I64 26, I64 60] \<and>
   is_numeric [I64 24, I64 25, I64 26, I64 60] \<and>
   length [I64 24, I64 25, I64 26, I64 60] = nrows [(''Age'', [I64 24, I64 25, I64 26, I64 60])] \<and>
   (1::nat) < length [I64 24, I64 25, I64 26, I64 60] \<and>
   [I64 24, I64 25, I64 26, I64 60] ! 1 = I64 25 \<and> (25::real) = real_of_int (sint (25::64 word)) \<and>
   map_of (enrich_age [(''Age'', [I64 24, I64 25, I64 26, I64 60])]) ''AgeGroup'' =
     Some [Cat (Some ''18-25''), Cat (Some ''18-25''), Cat (Some ''26-35''), Cat (Some ''55+'')]"
  using age_group_bands [of "[(''Age'', [I64 24, I64 25, I64 26, I64 60])]"
      "[I64 24, I64 25, I64 26, I64 60]" 1 25 25]
  by (simp add: is_numeric_def enrich_age_def pd_cut_def bins_def labels_def setitem_def
      columns_def align_def nrows_def)

text \<open>The last bin ends at 200: an age of 201 is in no band.\<close>

theorem age_group_upper_counterexample:
  "age_group 201 = Cat None \<and> age_group 201 \<noteq> Cat (Some ''55+'')"
  by (simp add: age_group_def bins_def labels_def)

section \<open>Decision rule\<close>







section \<open>Frame of the enrichment\<close>


lemma nrows_replace_col:
  "length c = nrows df \<Longrightarrow> nrows (replace_col df name c) = nrows df"
  by (cases df) (auto simp: nrows_def)

lemma nrows_setitem: "nrows (setitem df name c) = nrows df"
proof (cases df)
  case Nil
  then show ?thesis by (simp add: setitem_def columns_def nrows_def align_def)
next
  case (Cons a list)
  then show ?thesis
    by (cases a) (simp add: setitem_def nrows_def length_align columns_def)
qed

lemma columns_replace_col: "map fst (replace_col df name c) = map fst df"
  by (induction df) auto

lemma length_replace_col: "length (replace_col df name c) = length df"
  by (induction df) auto

lemma nth_replace_col:
  "j < length df \<Longrightarrow> fst (df ! j) \<noteq> name \<Longrightarrow> replace_col df name c ! j = df ! j"
proof (induction df arbitrary: j)
  case Nil
  then show ?case by simp
next
  case (Cons a df)
  then show ?case by (cases a; cases j) auto
qed

lemma columns_setitem:
  "columns (setitem df name c) =
     (if name \<in> set (columns df) then columns df else columns df @ [name])"
  by (simp add: setitem_def columns_def columns_replace_col)

lemma nth_setitem:
  "j < length df \<Longrightarrow> fst (df ! j) \<noteq> name \<Longrightarrow> setitem df name c ! j = df ! j"
  by (simp add: setitem_def nth_replace_col nth_append)

lemma map_of_columns: "map_of df k = Some c \<Longrightarrow> k \<in> set (columns df)"
  by (auto simp: columns_def dest!: map_of_SomeD intro: rev_image_eqI)

lemma columns_enrich_date: "columns (enrich_date L df) = columns df"
  by (auto simp: enrich_date_def columns_setitem map_of_columns split: option.splits sum.splits)

lemma nrows_enrich_date: "nrows (enrich_date L df) = nrows df"
  by (simp add: enrich_date_def nrows_setitem split: option.splits sum.splits)

lemma nth_enrich_date:
  "j < length df \<Longrightarrow> fst (df ! j) \<noteq> ''OrderDate'' \<Longrightarrow> enrich_date L df ! j = df ! j"
  by (simp add: enrich_date_def nth_setitem split: option.splits sum.splits)

lemma map_of_enrich_date:
  "k \<noteq> ''OrderDate'' \<Longrightarrow> map_of (enrich_date L df) k = map_of df k"
  by (simp add: enrich_date_def map_of_setitem_other split: option.splits sum.splits)

lemma length_columns: "length (columns df) = length df"
  by (simp add: columns_def)

lemma columns_enrich_age:
  "\<exists>extra. columns (enrich_age df) = columns df @ extra \<and> set extra \<subseteq> {''AgeGroup''}"
  by (auto simp: enrich_age_def columns_setitem split: option.splits sum.splits)

lemma nrows_enrich_age: "nrows (enrich_age df) = nrows df"
  by (simp add: enrich_age_def nrows_setitem split: option.splits sum.splits)

lemma nth_enrich_age:
  "j < length df \<Longrightarrow> fst (df ! j) \<noteq> ''AgeGroup'' \<Longrightarrow> enrich_age df ! j = df ! j"
  by (simp add: enrich_age_def nth_setitem split: option.splits sum.splits)

lemma map_of_enrich_age:
  "k \<noteq> ''AgeGroup'' \<Longrightarrow> map_of (enrich_age df) k = map_of df k"
  by (simp add: enrich_age_def map_of_setitem_other split: option.splits sum.splits)

lemma enrich_revenue_cases:
  "enrich_revenue L df = Inr df' \<Longrightarrow>
   df' = df \<or> (map_of df ''Revenue'' = None \<and> (\<exists>r. df' = setitem df ''Revenue'' r))"
  by (auto simp: enrich_revenue_def split: option.splits sum.splits)

lemma columns_enrich_revenue:
  assumes "enrich_revenue L df = Inr df'"
  shows "\<exists>extra. columns df' = columns df @ extra \<and> set extra \<subseteq> {''Revenue''}"
  using enrich_revenue_cases [OF assms] by (auto simp: columns_setitem)

lemma nrows_enrich_revenue: "enrich_revenue L df = Inr df' \<Longrightarrow> nrows df' = nrows df"
  by (auto dest!: enrich_revenue_cases simp: nrows_setitem)

lemma nth_enrich_revenue:
  assumes "enrich_revenue L df = Inr df'" and "j < length df"
  shows "df' ! j = df ! j"
proof -
  from enrich_revenue_cases [OF assms(1)] show ?thesis
  proof
    assume "df' = df" then show ?thesis by simp
  next
    assume h: "map_of df ''Revenue'' = None \<and> (\<exists>r. df' = setitem df ''Revenue'' r)"
    then have "fst (df ! j) \<noteq> ''Revenue''"
      using assms(2) by (metis map_of_eq_None_iff nth_mem image_eqI)
    with h assms(2) show ?thesis by (auto simp: nth_setitem)
  qed
qed

lemma map_of_enrich_revenue:
  assumes "enrich_revenue L df = Inr df'" and "k \<noteq> ''Revenue''"
  shows "map_of df' k = map_of df k"
  using enrich_revenue_cases [OF assms(1)] assms(2) by (auto simp: map_of_setitem_other)

lemma enrich_date_unparsed:
  "\<not> (\<exists>c d. map_of df ''OrderDate'' = Some c \<and> to_datetime L c = Inr d) \<Longrightarrow>
   enrich_date L df = df"
  by (auto simp: enrich_date_def split: option.splits sum.splits)

lemma enrich_age_unbucketed:
  "\<not> (\<exists>c g. map_of df ''Age'' = Some c \<and> pd_cut c bins labels = Inr g) \<Longrightarrow>
   enrich_age df = df"
  by (auto simp: enrich_age_def split: option.splits sum.splits)

lemma enrich_revenue_unmultiplied:
  assumes "enrich_revenue L df = Inr df'"
    and "\<not> (\<exists>p q. map_of df ''Price'' = Some p \<and> map_of df ''Quantity'' = Some q \<and>
            map_of df ''Revenue'' = None)"
  shows "df' = df"
  using assms by (auto simp: enrich_revenue_def split: option.splits sum.splits)

text \<open>
  C9 (as amended). When the enrichment returns, the columns of the input keep their names
  and their order and at most the columns \<open>AgeGroup\<close> and \<open>Revenue\<close> are added after
  them: \<open>AgeGroup\<close> only when the \<open>Age\<close> column is present and is bucketed, \<open>Revenue\<close>
  only when \<open>Price\<close> and \<open>Quantity\<close> are present. A column of the input keeps its
  values unless it is the \<open>OrderDate\<close> column and that column parses, which then holds
  the parsed dates, or it is the \<open>AgeGroup\<close> column and the \<open>Age\<close> column is present
  and is bucketed, which then holds the age bands. The number of rows is unchanged.
\<close>

theorem enrich_frame:
  assumes "enrich L df = Inr df'"
  shows "(\<exists>extra. columns df' = columns df @ extra \<and> set extra \<subseteq> {''AgeGroup'', ''Revenue''}) \<and>
    (''AgeGroup'' \<in> set (columns df') \<and> ''AgeGroup'' \<notin> set (columns df) \<longrightarrow>
       (\<exists>c g. map_of df ''Age'' = Some c \<and> pd_cut c bins labels = Inr g)) \<and>
    (''Revenue'' \<in> set (columns df') \<and> ''Revenue'' \<notin> set (columns df) \<longrightarrow>
       ''Price'' \<in> set (columns df) \<and> ''Quantity'' \<in> set (columns df)) \<and>
    (\<forall>j < length df. fst (df ! j) \<noteq> ''OrderDate'' \<and> fst (df ! j) \<noteq> ''AgeGroup'' \<longrightarrow>
       df' ! j = df ! j) \<and>
    (\<not> (\<exists>c d. map_of df ''OrderDate'' = Some c \<and> to_datetime L c = Inr d) \<longrightarrow>
       (\<forall>j < length df. fst (df ! j) = ''OrderDate'' \<longrightarrow> df' ! j = df ! j)) \<and>
    (\<not> (\<exists>c g. map_of df ''Age'' = Some c \<and> pd_cut c bins labels = Inr g) \<longrightarrow>
       (\<forall>j < length df. fst (df ! j) = ''AgeGroup'' \<longrightarrow> df' ! j = df ! j)) \<and>
    (\<forall>c d. map_of df ''OrderDate'' = Some c \<and> to_datetime L c = Inr d \<longrightarrow>
       map_of df' ''OrderDate'' = Some (align (nrows df) (map Stamp d))) \<and>
    (\<forall>c g. map_of df ''Age'' = Some c \<and> pd_cut c bins labels = Inr g \<longrightarrow>
       map_of df' ''AgeGroup'' = Some (align (nrows df) g)) \<and>
    nrows df' = nrows df"
proof -
  let ?d1 = "enrich_date L df" and ?d2 = "enrich_age (enrich_date L df)"
  have rev: "enrich_revenue L ?d2 = Inr df'" using assms by (simp add: enrich_def)
  obtain e2 where e2: "columns ?d2 = columns df @ e2" "set e2 \<subseteq> {''AgeGroup''}"
    using columns_enrich_age [of ?d1] by (auto simp: columns_enrich_date)
  obtain e3 where e3: "columns df' = columns ?d2 @ e3" "set e3 \<subseteq> {''Revenue''}"
    using columns_enrich_revenue [OF rev] by auto
  have cols: "\<exists>extra. columns df' = columns df @ extra \<and> set extra \<subseteq> {''AgeGroup'', ''Revenue''}"
    using e2 e3 by (intro exI [of _ "e2 @ e3"]) auto
  have len1: "length ?d1 = length df"
    using columns_enrich_date [of L df] by (metis length_columns)
  have len2: "length df \<le> length ?d2"
    using e2(1) by (metis length_columns length_append le_add1)
  have last: "df' ! j = ?d2 ! j" if "j < length df" for j
    using rev that len2 by (simp add: nth_enrich_revenue)
  have age_key: "map_of ?d1 ''Age'' = map_of df ''Age''"
    by (simp add: map_of_enrich_date)
  have added_age: "\<exists>c g. map_of df ''Age'' = Some c \<and> pd_cut c bins labels = Inr g"
    if "''AgeGroup'' \<in> set (columns df')" "''AgeGroup'' \<notin> set (columns df)"
  proof (rule ccontr)
    assume "\<not> (\<exists>c g. map_of df ''Age'' = Some c \<and> pd_cut c bins labels = Inr g)"
    then have "?d2 = ?d1" using age_key by (intro enrich_age_unbucketed) simp
    then have "columns ?d2 = columns df" by (simp add: columns_enrich_date)
    then have "set (columns df') \<subseteq> set (columns df) \<union> {''Revenue''}"
      using e3 by auto
    with that show False by auto
  qed
  have added_rev: "''Price'' \<in> set (columns df) \<and> ''Quantity'' \<in> set (columns df)"
    if "''Revenue'' \<in> set (columns df')" "''Revenue'' \<notin> set (columns df)"
  proof (rule ccontr)
    assume n: "\<not> (''Price'' \<in> set (columns df) \<and> ''Quantity'' \<in> set (columns df))"
    have "map_of ?d2 ''Price'' = map_of df ''Price''" "map_of ?d2 ''Quantity'' = map_of df ''Quantity''"
      by (simp_all add: map_of_enrich_age map_of_enrich_date)
    then have "\<not> (\<exists>p q. map_of ?d2 ''Price'' = Some p \<and> map_of ?d2 ''Quantity'' = Some q \<and>
            map_of ?d2 ''Revenue'' = None)"
      using n by (auto dest: map_of_columns)
    then have "df' = ?d2" using rev by (rule enrich_revenue_unmultiplied [rotated])
    then have "set (columns df') \<subseteq> set (columns df) \<union> {''AgeGroup''}"
      using e2 by auto
    with that show False by auto
  qed
  have same: "df' ! j = df ! j"
    if "j < length df" "fst (df ! j) \<noteq> ''OrderDate''" "fst (df ! j) \<noteq> ''AgeGroup''" for j
  proof -
    have a: "?d1 ! j = df ! j" using that by (simp add: nth_enrich_date)
    have b: "?d2 ! j = ?d1 ! j" using that a len1 by (simp add: nth_enrich_age)
    show ?thesis using a b last [OF that(1)] by simp
  qed
  have date_same: "df' ! j = df ! j"
    if "\<not> (\<exists>c d. map_of df ''OrderDate'' = Some c \<and> to_datetime L c = Inr d)"
      "j < length df" "fst (df ! j) = ''OrderDate''" for j
  proof -
    have a: "?d1 = df" using that(1) by (rule enrich_date_unparsed)
    have b: "?d2 ! j = ?d1 ! j" using that a by (simp add: nth_enrich_age)
    show ?thesis using a b last [OF that(2)] by simp
  qed
  have age_same: "df' ! j = df ! j"
    if "\<not> (\<exists>c g. map_of df ''Age'' = Some c \<and> pd_cut c bins labels = Inr g)"
      "j < length df" "fst (df ! j) = ''AgeGroup''" for j
  proof -
    have a: "?d2 = ?d1" using that(1) age_key by (intro enrich_age_unbucketed) simp
    have b: "?d1 ! j = df ! j" using that by (simp add: nth_enrich_date)
    show ?thesis using a b last [OF that(2)] by simp
  qed
  have date_new: "map_of df' ''OrderDate'' = Some (align (nrows df) (map Stamp d))"
    if "map_of df ''OrderDate'' = Some c" "to_datetime L c = Inr d" for c d
  proof -
    have "map_of ?d1 ''OrderDate'' = Some (align (nrows df) (map Stamp d))"
      using that by (simp add: enrich_date_def map_of_setitem_same)
    then have "map_of ?d2 ''OrderDate'' = Some (align (nrows df) (map Stamp d))"
      by (simp add: map_of_enrich_age)
    then show ?thesis using map_of_enrich_revenue [OF rev, of "''OrderDate''"] by simp
  qed
  have age_new: "map_of df' ''AgeGroup'' = Some (align (nrows df) g)"
    if "map_of df ''Age'' = Some c" "pd_cut c bins labels = Inr g" for c g
  proof -
    have "map_of ?d2 ''AgeGroup'' = Some (align (nrows ?d1) g)"
      using that age_key by (simp add: enrich_age_def map_of_setitem_same)
    then have "map_of ?d2 ''AgeGroup'' = Some (align (nrows df) g)"
      by (simp add: nrows_enrich_date)
    then show ?thesis using map_of_enrich_revenue [OF rev, of "''AgeGroup''"] by simp
  qed
  have rows: "nrows df' = nrows df"
    using nrows_enrich_revenue [OF rev] by (simp add: nrows_enrich_age nrows_enrich_date)
  show ?thesis
    using cols added_age added_rev same date_same age_same date_new age_new rows by blast
qed

theorem enrich_frame_witness:
  "enrich no_lib
     [(''OrderDate'', [Str ''x'']), (''Age'', [I64 30]), (''Price'', [I64 10]),
      (''Quantity'', [I64 2])] =
   Inr [(''OrderDate'', [Str ''x'']), (''Age'', [I64 30]), (''Price'', [I64 10]),
        (''Quantity'', [I64 2]), (''AgeGroup'', [Cat (Some ''26-35'')]),
        (''Revenue'', [I64 20])] \<and>
   nrows [(''OrderDate'', [Str ''x'']), (''Age'', [I64 30]), (''Price'', [I64 10]),
        (''Quantity'', [I64 2]), (''AgeGroup'', [Cat (Some ''26-35'')]),
        (''Revenue'', [I64 20])] =
   nrows [(''OrderDate'', [Str ''x'']), (''Age'', [I64 30]), (''Price'', [I64 10]),
      (''Quantity'', [I64 2])]"
  using enrich_frame [of no_lib
      "[(''OrderDate'', [Str ''x'']), (''Age'', [I64 30]), (''Price'', [I64 10]),
        (''Quantity'', [I64 2])]"
      "[(''OrderDate'', [Str ''x'']), (''Age'', [I64 30]), (''Price'', [I64 10]),
        (''Quantity'', [I64 2]), (''AgeGroup'', [Cat (Some ''26-35'')]),
        (''Revenue'', [I64 20])]"]
  by (simp add: enrich_def enrich_date_def enrich_age_def enrich_revenue_def no_lib_def
      pd_cut_def bins_def labels_def col_mul_def setitem_def columns_def align_def nrows_def)

text \<open>An \<open>AgeGroup\<close> column of the input is overwritten when the frame has an \<open>Age\<close> column.\<close>

theorem enrich_overwrites_age_group_counterexample:
  "enrich no_lib [(''Age'', [I64 30]), (''AgeGroup'', [Str ''senior''])] =
     Inr [(''Age'', [I64 30]), (''AgeGroup'', [Cat (Some ''26-35'')])] \<and>
   [Str ''senior''] \<noteq> [Cat (Some ''26-35'')]"
  by (simp add: enrich_def enrich_date_def enrich_age_def enrich_revenue_def no_lib_def
      pd_cut_def bins_def labels_def setitem_def columns_def align_def nrows_def)

section \<open>Derived revenue\<close>












section \<open>The hypothesis report without tests\<close>

lemma hyp_lines_nonempty: "hyp_lines L st \<noteq> []"
  by (simp add: hyp_lines_def)

lemma report_not_placeholder: "hypothesis_report L st \<noteq> placeholder"
proof -
  obtain ls where ls: "hyp_lines L st = header # ls"
    by (simp add: hyp_lines_def)
  show ?thesis
    by (cases ls) (simp_all add: hypothesis_report_def ls header_def placeholder_def test_tube_def)
qed

text \<open>
  C2. A frame with none of the columns that any analysis needs: no test runs, and the
  hypothesis report is the header line alone, not the placeholder. The list of lines
  starts with the header, so the placeholder is written for no run at all.
\<close>

theorem no_tests_report:
  "(case main no_lib [] [(''OrderID'', [Num 1, Num 2])] Map.empty of
      Inl e \<Rightarrow> None
    | Inr fs \<Rightarrow> fs ''reports/hypothesis_testing.md'') = Some header \<and>
   header \<noteq> placeholder \<and>
   (\<forall>L st. hypothesis_report L st \<noteq> placeholder)"
proof -
  have "step no_lib [(''OrderID'', [Num 1, Num 2])] a st = Inr st" for a st
    by (cases a) (simp_all add: step_def has_cols_def columns_def)
  then have run: "run_all no_lib [(''OrderID'', [Num 1, Num 2])] analyses st = Inr st" for st
    by (simp add: analyses_def and_then_def)
  have en: "enrich no_lib [(''OrderID'', [Num 1, Num 2])] = Inr [(''OrderID'', [Num 1, Num 2])]"
    by (simp add: enrich_def enrich_date_def enrich_age_def enrich_revenue_def)
  have "(case main no_lib [] [(''OrderID'', [Num 1, Num 2])] Map.empty of
      Inl e \<Rightarrow> None
    | Inr fs \<Rightarrow> fs ''reports/hypothesis_testing.md'') = Some header"
    by (simp add: main_def en run and_then_def hypothesis_report_def hyp_lines_def)
  moreover have "header \<noteq> placeholder"
    by (simp add: header_def placeholder_def test_tube_def)
  ultimately show ?thesis using report_not_placeholder by blast
qed

section \<open>Regression on rows with a missing discount\<close>

text \<open>
  C7. A frame in which the discount is missing in a row where the quantity is present:
  \<^verbatim>\<open>x.dropna().loc[y.dropna().index]\<close> looks up a row label that \<^verbatim>\<open>x.dropna()\<close> no
  longer has, and the regression raises instead of fitting.
\<close>

theorem regression_missing_discount:
  "step no_lib
     [(''DiscountPercent'', [NA, Num 10, Num 20]), (''Quantity'', [Num 1, Num 2, Num 3])]
     Regression \<lparr>files = Map.empty, results = [], corr_line = [], reg_line = []\<rparr> =
   Inl KeyError"
  by (simp add: step_def has_cols_def columns_def and_then_def getitem_def dropna_series_def
      loc_def)

section \<open>Gated analyses\<close>

lemma step_skip: "\<not> has_cols df (required a) \<Longrightarrow> step L df a st = Inr st"
  by (simp add: step_def)

lemma run_all_skip:
  "\<not> has_cols df (required a) \<Longrightarrow> run_all L df (removeAll a as) st = run_all L df as st"
proof (induction as arbitrary: st)
  case Nil
  then show ?case by simp
next
  case (Cons b as)
  show ?case
  proof (cases "b = a")
    case True
    then show ?thesis using Cons by (simp add: step_skip and_then_def)
  next
    case False
    then show ?thesis using Cons by (simp add: and_then_def split: sum.splits)
  qed
qed

text \<open>
  C8. An analysis whose columns are not all present returns the run as it received it:
  it writes no file, adds no result or line and raises nothing, and the whole sequence of
  analyses behaves as the sequence without this analysis.
\<close>

theorem gated_analysis_skipped:
  assumes "\<not> has_cols df (required a)"
  shows "step L df a st = Inr st \<and>
         run_all L df analyses st = run_all L df (removeAll a analyses) st"
  using assms by (simp add: step_skip run_all_skip)

theorem gated_analysis_skipped_witness:
  "\<not> has_cols [(''Region'', [Str ''N'', Str ''S'']), (''Returned'', [Num 0, Num 1])]
       (required DeviceReturned) \<and>
   step no_lib [(''Region'', [Str ''N'', Str ''S'']), (''Returned'', [Num 0, Num 1])]
     DeviceReturned \<lparr>files = Map.empty, results = [], corr_line = [], reg_line = []\<rparr> =
     Inr \<lparr>files = Map.empty, results = [], corr_line = [], reg_line = []\<rparr>"
  using gated_analysis_skipped [of "[(''Region'', [Str ''N'', Str ''S'']), (''Returned'', [Num 0, Num 1])]"
      DeviceReturned no_lib "\<lparr>files = Map.empty, results = [], corr_line = [], reg_line = []\<rparr>"]
  by (simp add: has_cols_def columns_def)

section \<open>Frames in which every brand is missing\<close>

lemma map_of_present: "n \<in> set (columns df) \<Longrightarrow> \<exists>c. map_of df n = Some c"
  by (metis columns_def map_of_eq_None_iff not_None_eq set_map)

lemma select_all_false: "select (map (\<lambda>x. False) xs) ys = []"
  by (auto simp: select_def filter_empty_conv dest!: set_zip_leftD)

lemma nrows_filter_rows_none: "nrows (filter_rows (map (\<lambda>x. False) xs) df) = 0"
  by (cases df) (auto simp: nrows_def filter_rows_def select_all_false)

lemma value_counts_all_missing: "list_all isna b \<Longrightarrow> value_counts b = []"
  by (simp add: value_counts_def list_all_iff filter_empty_conv)

lemma group_keys_all_missing: "list_all isna b \<Longrightarrow> group_keys b = []"
  by (simp add: group_keys_def list_all_iff filter_empty_conv)

lemma top_brands_step_skips:
  assumes "map_of df ''Brand'' = Some b" and "list_all isna b"
  shows "body L df TopBrandsReturned st = Inr st"
  using assms(1) value_counts_all_missing [OF assms(2)]
  by (simp add: and_then_def getitem_def nrows_filter_rows_none)

lemma brand_chart_raises:
  assumes "map_of df ''Brand'' = Some b" and "''Returned'' \<in> set (columns df)"
    and "list_all isna b"
  shows "step L df ReturnRateByBrand st = Inl IndexError"
proof -
  obtain v where v: "map_of df ''Returned'' = Some v"
    using map_of_present [OF assms(2)] by blast
  have gate: "has_cols df (required ReturnRateByBrand)"
    using assms(1,2) by (simp add: has_cols_def map_of_columns)
  have "return_rate L df ''Brand'' = Inr []"
    using assms(1) v group_keys_all_missing [OF assms(3)]
    by (simp add: return_rate_def and_then_def getitem_def groupby_agg_def times100_def)
  then have "body L df ReturnRateByBrand st = Inl IndexError"
    by (simp add: and_then_def save_bar_def sort_values_desc_def)
  with gate show ?thesis by (simp add: step_def)
qed

lemma columns_enrich_kept:
  assumes "enrich L df = Inr df'"
  shows "set (columns df) \<subseteq> set (columns df')"
proof -
  have rev: "enrich_revenue L (enrich_age (enrich_date L df)) = Inr df'"
    using assms by (simp add: enrich_def)
  obtain e2 where "columns (enrich_age (enrich_date L df)) = columns df @ e2"
    using columns_enrich_age [of "enrich_date L df"] by (auto simp: columns_enrich_date)
  moreover obtain e3 where "columns df' = columns (enrich_age (enrich_date L df)) @ e3"
    using columns_enrich_revenue [OF rev] by auto
  ultimately show ?thesis by auto
qed

lemma run_all_raises:
  assumes "\<And>st. \<exists>e. step L df a st = Inl e" and "a \<in> set as"
  shows "\<exists>e. run_all L df as st = Inl e"
  using assms(2)
proof (induction as arbitrary: st)
  case Nil
  then show ?case by simp
next
  case (Cons b as)
  show ?case
  proof (cases "step L df b st")
    case (Inl e)
    then show ?thesis by (simp add: and_then_def)
  next
    case (Inr st')
    then have "b \<noteq> a" using assms(1) [of st] by auto
    then have "a \<in> set as" using Cons.prems by simp
    then show ?thesis using Cons.IH Inr by (simp add: and_then_def)
  qed
qed

text \<open>
  C10. A frame with the columns \<open>Brand\<close> and \<open>Returned\<close> in which every brand is
  missing: the top-brands test, taken alone, finds no row of a top brand and returns the
  run as it received it. But the chart of the return rate by brand, which runs before it
  on the same columns, has no present brand to plot and raises, so the whole run raises
  and writes no hypothesis report.
\<close>

theorem all_brands_missing_run_raises:
  assumes "map_of df ''Brand'' = Some b" and "''Returned'' \<in> set (columns df)"
    and "list_all isna b"
  shows "(\<exists>e. main L ins df fs = Inl e) \<and>
    step L df ReturnRateByBrand st = Inl IndexError \<and>
    step L df TopBrandsReturned st = Inr st"
proof -
  have skip: "step L df TopBrandsReturned st = Inr st"
    using top_brands_step_skips [OF assms(1,3)] by (simp add: step_def)
  have "\<exists>e. main L ins df fs = Inl e"
  proof (cases "enrich L df")
    case (Inl e)
    then show ?thesis by (simp add: main_def and_then_def)
  next
    case (Inr df')
    then have rev: "enrich_revenue L (enrich_age (enrich_date L df)) = Inr df'"
      by (simp add: enrich_def)
    have "map_of (enrich_age (enrich_date L df)) ''Brand'' = Some b"
      using assms(1) by (simp add: map_of_enrich_age map_of_enrich_date)
    then have brand: "map_of df' ''Brand'' = Some b"
      using map_of_enrich_revenue [OF rev, of "''Brand''"] by simp
    have returned: "''Returned'' \<in> set (columns df')"
      using columns_enrich_kept [OF Inr] assms(2) by auto
    have "\<exists>e. step L df' ReturnRateByBrand s = Inl e" for s
      using brand_chart_raises [OF brand returned assms(3)] by blast
    then have "\<exists>e. run_all L df' analyses s = Inl e" for s
      by (rule run_all_raises) (simp add: analyses_def)
    then show ?thesis
      using Inr by (simp add: main_def and_then_def) (metis sum.simps(5))
  qed
  then show ?thesis
    using skip brand_chart_raises [OF assms] by simp
qed


theorem all_brands_missing_run_raises_witness:
  "map_of [(''Brand'', [NA, NA]), (''Returned'', [I64 1, I64 0])] ''Brand'' = Some [NA, NA] \<and>
   ''Returned'' \<in> set (columns [(''Brand'', [NA, NA]), (''Returned'', [I64 1, I64 0])]) \<and>
   list_all isna [NA, NA] \<and>
   main no_lib [] [(''Brand'', [NA, NA]), (''Returned'', [I64 1, I64 0])] Map.empty =
     Inl IndexError \<and>
   step no_lib [(''Brand'', [NA, NA]), (''Returned'', [I64 1, I64 0])] TopBrandsReturned
     \<lparr>files = Map.empty, results = [], corr_line = [], reg_line = []\<rparr> =
     Inr \<lparr>files = Map.empty, results = [], corr_line = [], reg_line = []\<rparr>"
proof -
  let ?df = "[(''Brand'', [NA, NA]), (''Returned'', [I64 1, I64 0])]"
  let ?st = "\<lparr>files = Map.empty, results = [], corr_line = [], reg_line = []\<rparr>"
  have hyps: "map_of ?df ''Brand'' = Some [NA, NA]" "''Returned'' \<in> set (columns ?df)"
    "list_all isna [NA, NA]"
    by (simp_all add: columns_def)
  have en: "enrich no_lib ?df = Inr ?df"
    by (simp add: enrich_def enrich_date_def enrich_age_def enrich_revenue_def)
  have s1: "step no_lib ?df RevenueByCategory st = Inr st"
    "step no_lib ?df ReturnRateByCategory st = Inr st" for st
    by (simp_all add: step_def has_cols_def columns_def)
  have s2: "step no_lib ?df ReturnRateByBrand st = Inl IndexError" for st
    using all_brands_missing_run_raises [OF hyps, of no_lib "[]" Map.empty st] by simp
  have "main no_lib [] ?df Map.empty = Inl IndexError"
    by (simp add: main_def en and_then_def analyses_def s1 s2)
  then show ?thesis
    using hyps all_brands_missing_run_raises [OF hyps, of no_lib "[]" Map.empty ?st] by simp
qed

section \<open>Pruning of the contingency table\<close>

lemma select_all_true:
  "length ks = length xs \<Longrightarrow> \<forall>k \<in> set ks. k \<Longrightarrow> select ks xs = xs"
  unfolding select_def by (induction ks xs rule: list_induct2) auto

lemma select_map_filter:
  "length ss = length xs \<Longrightarrow>
   select (map P ss) xs = map snd (filter (\<lambda>(s, x). P s) (zip ss xs))"
  unfolding select_def by (induction ss xs rule: list_induct2) auto

lemma sum_list_ge_member: "(x::nat) \<in> set xs \<Longrightarrow> x \<le> sum_list xs"
  by (induction xs) auto

lemma sort_key_Nil_iff: "(sort_key k xs = []) = (xs = [])"
  by (metis length_sort length_0_conv)

lemma crosstab_shape:
  "length (row_labels (crosstab a b)) = length (counts (crosstab a b))"
  "r \<in> set (counts (crosstab a b)) \<Longrightarrow> length r = length (col_labels (crosstab a b))"
  "(counts (crosstab a b) = []) = (col_labels (crosstab a b) = [])"
  by (auto simp: crosstab_def Let_def sort_key_Nil_iff)

lemma prune_unchanged:
  assumes rows: "length (row_labels tab) = length (counts tab)"
    and cols: "\<And>r. r \<in> set (counts tab) \<Longrightarrow> length r = length (col_labels tab)"
    and empty: "(counts tab = []) = (col_labels tab = [])"
    and cells: "\<not> any_below tab m"
  shows "prune tab m = tab"
proof -
  have cell: "m \<le> x" if "r \<in> set (counts tab)" "x \<in> set r" for r x
    using cells that by (auto simp: any_below_def list_ex_iff not_less)
  have rowsum: "m \<le> s" if "s \<in> set (row_sums tab)" for s
  proof -
    from that obtain r where r: "r \<in> set (counts tab)" "s = sum_list r"
      by (auto simp: row_sums_def)
    then have "counts tab \<noteq> []" by auto
    then have "r \<noteq> []" using cols [OF r(1)] empty by auto
    then obtain x where x: "x \<in> set r" by (cases r) auto
    then have "m \<le> x" using cell r(1) by blast
    also have "x \<le> sum_list r" using x by (rule sum_list_ge_member)
    finally show ?thesis using r(2) by simp
  qed
  have colsum: "m \<le> s" if "s \<in> set (col_sums tab)" for s
  proof -
    from that obtain j where j: "j < length (col_labels tab)"
      "s = sum_list (map (\<lambda>r. r ! j) (counts tab))"
      by (auto simp: col_sums_def)
    then have "counts tab \<noteq> []" using empty by auto
    then obtain r where r: "r \<in> set (counts tab)" by (cases "counts tab") auto
    then have jr: "j < length r" using cols j(1) by simp
    then have "m \<le> r ! j" using cell [OF r] by simp
    also have "r ! j \<le> sum_list (map (\<lambda>r. r ! j) (counts tab))"
      using r by (intro sum_list_ge_member) auto
    finally show ?thesis using j(2) by simp
  qed
  let ?rm = "map (\<lambda>s. m \<le> s) (row_sums tab)" and ?cm = "map (\<lambda>s. m \<le> s) (col_sums tab)"
  have rm: "\<forall>k \<in> set ?rm. k" using rowsum by auto
  have cm: "\<forall>k \<in> set ?cm. k" using colsum by auto
  have lrm: "length ?rm = length (counts tab)" by (simp add: row_sums_def)
  have lcm: "length ?cm = length (col_labels tab)" by (simp add: col_sums_def)
  have a: "select ?rm (row_labels tab) = row_labels tab"
    using rm lrm rows by (intro select_all_true) simp_all
  have b: "select ?cm (col_labels tab) = col_labels tab"
    using cm lcm by (intro select_all_true) simp_all
  have c: "select ?rm (counts tab) = counts tab"
    using rm lrm by (intro select_all_true) simp_all
  have d: "map (select ?cm) (counts tab) = counts tab"
  proof (rule map_idI)
    fix r assume "r \<in> set (counts tab)"
    then have "length ?cm = length r" using cols lcm by simp
    then show "select ?cm r = r" using cm by (intro select_all_true) simp_all
  qed
  show ?thesis
    unfolding prune_def Let_def a b c d by simp
qed

lemma tested_table_crosstab: "tested_table (crosstab a b) m = prune (crosstab a b) m"
proof (cases "any_below (crosstab a b) m")
  case True
  then show ?thesis by (simp add: tested_table_def)
next
  case False
  have "prune (crosstab a b) m = crosstab a b"
    using crosstab_shape(1) crosstab_shape(2) crosstab_shape(3) False
    by (rule prune_unchanged)
  with False show ?thesis by (simp add: tested_table_def)
qed

lemma select_map_self: "select (map P xs) xs = filter P xs"
  unfolding select_def by (induction xs) auto

lemma select_map_map: "select (map P xs) (map g xs) = map g (filter P xs)"
  unfolding select_def by (induction xs) auto

lemma sum_list_indicator:
  "distinct cs \<Longrightarrow>
   sum_list (map (\<lambda>c. if y = c then 1 else 0) cs) = (if y \<in> set cs then 1 else (0::nat))"
  by (induction cs) auto

lemma sum_list_count_step:
  "sum_list (map (\<lambda>c. count_list (p # ps) (f c)) cs) =
   sum_list (map (\<lambda>c. count_list ps (f c)) cs) +
   sum_list (map (\<lambda>c. if p = f c then 1 else 0) cs)"
  by (induction cs) auto

lemma row_marginal:
  assumes "distinct cs" and "snd ` set ps \<subseteq> set cs"
  shows "sum_list (map (\<lambda>c. count_list ps (r, c)) cs) = length (filter (\<lambda>(x, y). x = r) ps)"
  using assms(2)
proof (induction ps)
  case Nil
  then show ?case by simp
next
  case (Cons p ps)
  obtain x y where p: "p = (x, y)" by (cases p)
  have y: "y \<in> set cs" using Cons.prems p by auto
  have "sum_list (map (\<lambda>c. if p = (r, c) then 1 else 0) cs) = (if x = r then 1 else (0::nat))"
  proof (cases "x = r")
    case True
    then have "sum_list (map (\<lambda>c. if p = (r, c) then 1 else 0) cs) =
        sum_list (map (\<lambda>c. if y = c then 1 else (0::nat)) cs)"
      by (simp add: p)
    then show ?thesis using sum_list_indicator [OF assms(1), of y] y True by simp
  next
    case False
    then show ?thesis by (simp add: p)
  qed
  moreover have "sum_list (map (\<lambda>c. count_list ps (r, c)) cs) =
      length (filter (\<lambda>(x, y). x = r) ps)"
    using Cons by simp
  ultimately show ?case
    using sum_list_count_step [of p ps "\<lambda>c. (r, c)" cs] by (simp add: p)
qed

lemma col_marginal:
  assumes "distinct rs" and "fst ` set ps \<subseteq> set rs"
  shows "sum_list (map (\<lambda>r. count_list ps (r, c)) rs) = length (filter (\<lambda>(x, y). y = c) ps)"
  using assms(2)
proof (induction ps)
  case Nil
  then show ?case by simp
next
  case (Cons p ps)
  obtain x y where p: "p = (x, y)" by (cases p)
  have x: "x \<in> set rs" using Cons.prems p by auto
  have "sum_list (map (\<lambda>r. if p = (r, c) then 1 else 0) rs) = (if y = c then 1 else (0::nat))"
  proof (cases "y = c")
    case True
    then have "sum_list (map (\<lambda>r. if p = (r, c) then 1 else 0) rs) =
        sum_list (map (\<lambda>r. if x = r then 1 else (0::nat)) rs)"
      by (simp add: p)
    then show ?thesis using sum_list_indicator [OF assms(1), of x] x True by simp
  next
    case False
    then show ?thesis by (simp add: p)
  qed
  moreover have "sum_list (map (\<lambda>r. count_list ps (r, c)) rs) =
      length (filter (\<lambda>(x, y). y = c) ps)"
    using Cons by simp
  ultimately show ?case
    using sum_list_count_step [of p ps "\<lambda>r. (r, c)" rs] by (simp add: p)
qed

lemma row_sums_crosstab:
  "row_sums (crosstab a b) =
     map (\<lambda>r. length (filter (\<lambda>(x, y). x = r) (present_pairs a b)))
       (sort_key cell_key (remdups (map fst (present_pairs a b))))"
  by (simp add: row_sums_def crosstab_def Let_def comp_def row_marginal)

lemma col_sums_crosstab:
  "col_sums (crosstab a b) =
     map (\<lambda>c. length (filter (\<lambda>(x, y). y = c) (present_pairs a b)))
       (sort_key cell_key (remdups (map snd (present_pairs a b))))"
proof -
  let ?ps = "present_pairs a b"
  let ?rs = "sort_key cell_key (remdups (map fst ?ps))"
  let ?cs = "sort_key cell_key (remdups (map snd ?ps))"
  have "col_sums (crosstab a b) =
      map (\<lambda>j. sum_list (map (\<lambda>r. count_list ?ps (r, ?cs ! j)) ?rs)) [0..<length ?cs]"
    by (simp add: col_sums_def crosstab_def Let_def comp_def)
  also have "\<dots> = map (\<lambda>j. length (filter (\<lambda>(x, y). y = ?cs ! j) ?ps)) [0..<length ?cs]"
    by (simp add: col_marginal)
  also have "\<dots> = map (\<lambda>c. length (filter (\<lambda>(x, y). y = c) ?ps)) (map (\<lambda>j. ?cs ! j) [0..<length ?cs])"
    by (simp add: comp_def)
  also have "\<dots> = map (\<lambda>c. length (filter (\<lambda>(x, y). y = c) ?ps)) ?cs"
    by (simp only: map_nth)
  finally show ?thesis .
qed

lemma prune_crosstab:
  fixes a b m
  defines "ps \<equiv> present_pairs a b"
  defines "rs \<equiv> filter (\<lambda>r. m \<le> length (filter (\<lambda>(x, y). x = r) ps))
      (sort_key cell_key (remdups (map fst ps)))"
  defines "cs \<equiv> filter (\<lambda>c. m \<le> length (filter (\<lambda>(x, y). y = c) ps))
      (sort_key cell_key (remdups (map snd ps)))"
  shows "prune (crosstab a b) m =
    \<lparr>row_labels = rs, col_labels = cs,
     counts = map (\<lambda>r. map (\<lambda>c. count_list ps (r, c)) cs) rs\<rparr>"
proof -
  let ?rs0 = "sort_key cell_key (remdups (map fst ps))"
  let ?cs0 = "sort_key cell_key (remdups (map snd ps))"
  let ?P = "\<lambda>r. m \<le> length (filter (\<lambda>(x, y). x = r) ps)"
  let ?Q = "\<lambda>c. m \<le> length (filter (\<lambda>(x, y). y = c) ps)"
  have rm: "map (\<lambda>s. m \<le> s) (row_sums (crosstab a b)) = map ?P ?rs0"
    by (simp add: row_sums_crosstab ps_def comp_def)
  have cm: "map (\<lambda>s. m \<le> s) (col_sums (crosstab a b)) = map ?Q ?cs0"
    by (simp add: col_sums_crosstab ps_def comp_def)
  have labels: "row_labels (crosstab a b) = ?rs0" "col_labels (crosstab a b) = ?cs0"
    "counts (crosstab a b) = map (\<lambda>r. map (\<lambda>c. count_list ps (r, c)) ?cs0) ?rs0"
    by (simp_all add: crosstab_def Let_def ps_def)
  show ?thesis
    unfolding prune_def Let_def rm cm labels
    by (simp add: select_map_self select_map_map rs_def cs_def comp_def)
qed

text \<open>
  C1. The table that \<^verbatim>\<open>chi_square_test\<close> hands to the chi-square computation, and
  returns, is the contingency table of the two columns pruned of every row and every
  column whose marginal total is below the minimum count, which is 5 in every test that
  \<^verbatim>\<open>main\<close> runs. Its rows are
  the values of the first column that occur in at least that many rows in which both
  columns are present, its columns the values of the second column with that property,
  and each of its cells counts the rows with that pair of values. The source prunes only
  when some cell is below the minimum; when no cell is, no marginal total is either, and
  pruning removes nothing.
\<close>

theorem chi_square_test_pruned:
  "chi_square_test L df col_a col_b m =
     (case map_of df col_a of
        None \<Rightarrow> Inl KeyError
      | Some ca \<Rightarrow>
          (case map_of df col_b of
             None \<Rightarrow> Inl KeyError
           | Some cb \<Rightarrow>
               (case chi2_contingency L (counts (prune (crosstab ca cb) m)) of
                  Inl e \<Rightarrow> Inl e
                | Inr (chi2, p, dof) \<Rightarrow> Inr (chi2, p, dof, prune (crosstab ca cb) m)))) \<and>
   row_labels (prune (crosstab a b) m) =
     filter (\<lambda>r. m \<le> length (filter (\<lambda>(x, y). x = r) (present_pairs a b)))
       (sort_key cell_key (remdups (map fst (present_pairs a b)))) \<and>
   col_labels (prune (crosstab a b) m) =
     filter (\<lambda>c. m \<le> length (filter (\<lambda>(x, y). y = c) (present_pairs a b)))
       (sort_key cell_key (remdups (map snd (present_pairs a b)))) \<and>
   counts (prune (crosstab a b) m) =
     map (\<lambda>r. map (\<lambda>c. count_list (present_pairs a b) (r, c))
                 (col_labels (prune (crosstab a b) m)))
       (row_labels (prune (crosstab a b) m)) \<and>
   min_count = 5 \<and>
   chi_square_result L df col_a col_b name st =
     (case dropna_subset df [col_a, col_b] of
        Inl e \<Rightarrow> Inl e
      | Inr d \<Rightarrow>
          (case chi_square_test L d col_a col_b 5 of
             Inl e \<Rightarrow> Inl e
           | Inr (chi2, p, dof, tab) \<Rightarrow>
               Inr (st\<lparr>results := results st @ [(name, chi2, p, dof)]\<rparr>)))"
proof (intro conjI)
  show "chi_square_result L df col_a col_b name st =
     (case dropna_subset df [col_a, col_b] of
        Inl e \<Rightarrow> Inl e
      | Inr d \<Rightarrow>
          (case chi_square_test L d col_a col_b 5 of
             Inl e \<Rightarrow> Inl e
           | Inr (chi2, p, dof, tab) \<Rightarrow>
               Inr (st\<lparr>results := results st @ [(name, chi2, p, dof)]\<rparr>)))"
    by (simp add: chi_square_result_def min_count_def and_then_def
        split: sum.splits prod.splits)
  show "chi_square_test L df col_a col_b m =
     (case map_of df col_a of
        None \<Rightarrow> Inl KeyError
      | Some ca \<Rightarrow>
          (case map_of df col_b of
             None \<Rightarrow> Inl KeyError
           | Some cb \<Rightarrow>
               (case chi2_contingency L (counts (prune (crosstab ca cb) m)) of
                  Inl e \<Rightarrow> Inl e
                | Inr (chi2, p, dof) \<Rightarrow> Inr (chi2, p, dof, prune (crosstab ca cb) m))))"
    by (simp add: chi_square_test_def tested_table_crosstab Let_def split: option.splits)
qed (simp_all add: prune_crosstab min_count_def)

section \<open>Outlier counts under reordering and added rows\<close>

lemma quantile_mset: "mset xs = mset ys \<Longrightarrow> quantile xs q = quantile ys q"
proof -
  assume h: "mset xs = mset ys"
  have s: "sort xs = sort ys"
    by (rule properties_for_sort) (simp_all add: h)
  have l: "length xs = length ys" using h by (rule mset_eq_length)
  then have e: "(xs = []) = (ys = [])" by auto
  show ?thesis by (simp add: quantile_def s l e)
qed

lemma length_filter_mset:
  "mset xs = mset ys \<Longrightarrow> length (filter P xs) = length (filter P ys)"
  by (metis mset_filter size_mset)

lemma iqr_outliers_count_mset:
  "mset xs = mset ys \<Longrightarrow> iqr_outliers_count xs = iqr_outliers_count ys"
  by (simp add: iqr_outliers_count_def quantile_mset [of xs ys] length_filter_mset [of xs ys]
      split: option.splits)

lemma iqr_outliers_count_append:
  assumes "quantile xs (25 / 100) = Some q1" and "quantile xs (75 / 100) = Some q3"
    and "quantile (xs @ zs) (25 / 100) = Some q1" and "quantile (xs @ zs) (75 / 100) = Some q3"
  shows "iqr_outliers_count (xs @ zs) =
    iqr_outliers_count xs +
    length (filter (\<lambda>x. x < lower_bound q1 q3 \<or> x > upper_bound q1 q3) zs)"
  using assms by (simp add: iqr_outliers_count_def)

text \<open>
  C4 (as amended). The outlier count of a column is the same for every reordering of its
  rows. When rows are added and the two quartiles of the column stay what they were, the
  count is unchanged if every added value lies within the bounds, and it grows by exactly
  one if one value above the upper bound is added.
\<close>

theorem iqr_outliers_count_invariance:
  "(mset xs = mset ys \<longrightarrow> iqr_outliers_count xs = iqr_outliers_count ys) \<and>
   (quantile xs (25 / 100) = Some q1 \<and> quantile xs (75 / 100) = Some q3 \<and>
    quantile (xs @ zs) (25 / 100) = Some q1 \<and> quantile (xs @ zs) (75 / 100) = Some q3 \<and>
    (\<forall>z \<in> set zs. lower_bound q1 q3 \<le> z \<and> z \<le> upper_bound q1 q3) \<longrightarrow>
      iqr_outliers_count (xs @ zs) = iqr_outliers_count xs) \<and>
   (quantile xs (25 / 100) = Some q1 \<and> quantile xs (75 / 100) = Some q3 \<and>
    quantile (xs @ [z]) (25 / 100) = Some q1 \<and> quantile (xs @ [z]) (75 / 100) = Some q3 \<and>
    upper_bound q1 q3 < z \<longrightarrow>
      iqr_outliers_count (xs @ [z]) = iqr_outliers_count xs + 1)"
proof (intro conjI impI)
  assume "mset xs = mset ys"
  then show "iqr_outliers_count xs = iqr_outliers_count ys"
    by (rule iqr_outliers_count_mset)
next
  assume h: "quantile xs (25 / 100) = Some q1 \<and> quantile xs (75 / 100) = Some q3 \<and>
    quantile (xs @ zs) (25 / 100) = Some q1 \<and> quantile (xs @ zs) (75 / 100) = Some q3 \<and>
    (\<forall>z \<in> set zs. lower_bound q1 q3 \<le> z \<and> z \<le> upper_bound q1 q3)"
  then have "filter (\<lambda>x. x < lower_bound q1 q3 \<or> x > upper_bound q1 q3) zs = []"
    by (auto simp: filter_empty_conv)
  with h show "iqr_outliers_count (xs @ zs) = iqr_outliers_count xs"
    by (simp add: iqr_outliers_count_append)
next
  assume h: "quantile xs (25 / 100) = Some q1 \<and> quantile xs (75 / 100) = Some q3 \<and>
    quantile (xs @ [z]) (25 / 100) = Some q1 \<and> quantile (xs @ [z]) (75 / 100) = Some q3 \<and>
    upper_bound q1 q3 < z"
  then show "iqr_outliers_count (xs @ [z]) = iqr_outliers_count xs + 1"
    by (simp add: iqr_outliers_count_append)
qed

theorem iqr_outliers_count_invariance_witness:
  "mset [1, 2, 3, 4, 100 :: real] = mset [100, 4, 3, 2, 1] \<and>
   iqr_outliers_count [1, 2, 3, 4, 100] = iqr_outliers_count [100, 4, 3, 2, 1] \<and>
   quantile [1, 2, 2, 2, 3] (25 / 100) = Some 2 \<and>
   quantile [1, 2, 2, 2, 3] (75 / 100) = Some 2 \<and>
   quantile ([1, 2, 2, 2, 3] @ [2]) (25 / 100) = Some 2 \<and>
   quantile ([1, 2, 2, 2, 3] @ [2]) (75 / 100) = Some 2 \<and>
   lower_bound 2 2 \<le> 2 \<and> 2 \<le> upper_bound 2 2 \<and>
   iqr_outliers_count ([1, 2, 2, 2, 3] @ [2]) = iqr_outliers_count [1, 2, 2, 2, 3] \<and>
   quantile [2, 2, 2, 2, 2] (25 / 100) = Some 2 \<and>
   quantile [2, 2, 2, 2, 2] (75 / 100) = Some 2 \<and>
   quantile ([2, 2, 2, 2, 2] @ [9]) (25 / 100) = Some 2 \<and>
   quantile ([2, 2, 2, 2, 2] @ [9]) (75 / 100) = Some 2 \<and>
   upper_bound 2 2 < 9 \<and>
   iqr_outliers_count ([2, 2, 2, 2, 2] @ [9]) = iqr_outliers_count [2, 2, 2, 2, 2] + 1"
  using iqr_outliers_count_invariance [of "[1, 2, 3, 4, 100]" "[100, 4, 3, 2, 1]" 2 4 "[]" 0]
    iqr_outliers_count_invariance [of "[1, 2, 2, 2, 3]" "[1, 2, 2, 2, 3]" 2 2 "[2]" 0]
    iqr_outliers_count_invariance [of "[2, 2, 2, 2, 2]" "[2, 2, 2, 2, 2]" 2 2 "[]" 9]
  by (simp add: quantile_def lower_bound_def upper_bound_def)

text \<open>
  The quartiles are computed from the column itself, so added rows move the bounds. The
  column \<open>0, 0, 4\<close> has bounds \<open>-3\<close> and \<open>5\<close> and no outlier; with one more \<open>0\<close>,
  which lies strictly inside them, the bounds are \<open>-1.5\<close> and \<open>2.5\<close> and \<open>4\<close> is an
  outlier. The column \<open>0, 4\<close> has the upper bound \<open>6\<close> and no outlier; with the row
  \<open>6.25\<close> added the upper bound is \<open>9.8125\<close> and there is still no outlier.
\<close>

theorem iqr_outliers_count_added_rows_counterexample:
  "quantile [0, 0, 4] (25 / 100) = Some 0 \<and> quantile [0, 0, 4] (75 / 100) = Some 2 \<and>
   lower_bound 0 2 < 0 \<and> 0 < upper_bound 0 2 \<and>
   iqr_outliers_count [0, 0, 4] = 0 \<and> iqr_outliers_count ([0, 0, 4] @ [0]) = 1 \<and>
   quantile [0, 4] (25 / 100) = Some 1 \<and> quantile [0, 4] (75 / 100) = Some 3 \<and>
   upper_bound 1 3 + 1 / 4 = 25 / 4 \<and>
   iqr_outliers_count [0, 4] = 0 \<and> iqr_outliers_count ([0, 4] @ [25 / 4]) = 0"
  by (simp add: iqr_outliers_count_def quantile_def lower_bound_def upper_bound_def)

end
